theory Spec2Isabelle
  imports Main
begin

section \<open>Gallery carousel (src/scripts/gallery.js)\<close>

text \<open>
  The script is one function body run once at page load. Its mutable variables
  (\<open>currentIndex\<close>, \<open>touchStartX\<close>, \<open>touchEndX\<close>) and the parts of the page it writes to
  (the track's transform, the active class of each dot) form the state record; each inner
  function takes the state and returns the new one. Slide indices and touch coordinates
  are integral JavaScript numbers, modelled as \<open>int\<close>.
\<close>

datatype js_error = TypeError

text \<open>Reading a property of a reference that may be \<open>null\<close> throws a TypeError.\<close>

fun deref :: "'a option \<Rightarrow> js_error + 'a" where
  "deref None = Inl TypeError"
| "deref (Some x) = Inr x"

text \<open>
  What \<open>querySelector\<close> and \<open>querySelectorAll\<close> find inside the \<open>.gallery-carousel\<close>
  element: whether the track, the two buttons and the dot container exist, and how many
  slides there are.
\<close>

record carousel_dom =
  has_track :: bool
  n_slides :: nat
  has_prevBtn :: bool
  has_nextBtn :: bool
  has_dotsContainer :: bool

text \<open>
  \<open>transform\<close> is the percentage \<open>p\<close> of the last \<open>translateX(-p%)\<close> written to the
  track (\<open>None\<close> while nothing has been written); \<open>dots\<close> holds, for each dot button
  in document order, whether it carries the class \<open>active\<close> (\<open>None\<close> when the page has
  no dot container).
\<close>

record carousel =
  currentIndex :: int
  totalSlides :: int
  transform :: "int option"
  dots :: "bool list option"
  prevBtn :: bool
  nextBtn :: bool
  touchStartX :: int
  touchEndX :: int

definition createDots :: "carousel_dom \<Rightarrow> bool list option" where
  "createDots d =
     (if \<not> has_dotsContainer d then None
      else Some (map (\<lambda>i. i = 0) [0..<n_slides d]))"

definition updateDots :: "carousel \<Rightarrow> carousel" where
  "updateDots c =
     (case dots c of
        None \<Rightarrow> c
      | Some ds \<Rightarrow> c\<lparr>dots := Some (map (\<lambda>index. int index = currentIndex c) [0..<length ds])\<rparr>)"

definition goToSlide :: "int \<Rightarrow> carousel \<Rightarrow> carousel" where
  "goToSlide index c =
     (let c1 = (if index < 0 then c\<lparr>currentIndex := totalSlides c - 1\<rparr>
                else if index \<ge> totalSlides c then c\<lparr>currentIndex := 0\<rparr>
                else c\<lparr>currentIndex := index\<rparr>);
          c2 = c1\<lparr>transform := Some (currentIndex c1 * 100)\<rparr>
      in updateDots c2)"

definition nextSlide :: "carousel \<Rightarrow> carousel" where
  "nextSlide c = goToSlide (currentIndex c + 1) c"

definition prevSlide :: "carousel \<Rightarrow> carousel" where
  "prevSlide c = goToSlide (currentIndex c - 1) c"

definition swipeThreshold :: int where
  "swipeThreshold = 50"

definition handleSwipe :: "carousel \<Rightarrow> carousel" where
  "handleSwipe c =
     (let diff = touchStartX c - touchEndX c
      in if \<bar>diff\<bar> > swipeThreshold
         then (if diff > 0 then nextSlide c else prevSlide c)
         else c)"

text \<open>
  The script body up to the listener registrations. \<open>None\<close> is the document without a
  \<open>.gallery-carousel\<close> element. \<open>Inr None\<close> is an early \<open>return\<close>: nothing was
  registered and no state exists.
\<close>

definition initCarousel :: "carousel_dom option \<Rightarrow> js_error + carousel option" where
  "initCarousel doc =
     (if doc = None then Inr None
      else case deref doc of
        Inl e \<Rightarrow> Inl e
      | Inr d \<Rightarrow>
          if \<not> has_track d \<or> n_slides d = 0 then Inr None
          else Inr (Some \<lparr>currentIndex = 0, totalSlides = int (n_slides d),
                           transform = None, dots = createDots d,
                           prevBtn = has_prevBtn d, nextBtn = has_nextBtn d,
                           touchStartX = 0, touchEndX = 0\<rparr>))"

text \<open>The listeners the script registers, in the order of its \<open>addEventListener\<close> calls.\<close>

datatype listener =
  DotClickL nat | PrevClickL | NextClickL | KeyDownL | TouchStartL | TouchEndL

definition attached :: "carousel option \<Rightarrow> listener list" where
  "attached r =
     (case r of
        None \<Rightarrow> []
      | Some c \<Rightarrow>
          (case dots c of None \<Rightarrow> [] | Some ds \<Rightarrow> map DotClickL [0..<length ds])
          @ (if prevBtn c then [PrevClickL] else [])
          @ (if nextBtn c then [NextClickL] else [])
          @ [KeyDownL, TouchStartL, TouchEndL])"

datatype key = ArrowLeft | ArrowRight | OtherKey

datatype event =
  DotClick nat | PrevClick | NextClick | KeyDown key | TouchStart int | TouchEnd int

text \<open>
  One event delivered to the page. A click reaches a handler only where the script
  registered one: on a dot that was created, on a button that exists.
\<close>

fun dispatch :: "event \<Rightarrow> carousel \<Rightarrow> carousel" where
  "dispatch (DotClick i) c =
     (case dots c of
        None \<Rightarrow> c
      | Some ds \<Rightarrow> if i < length ds then goToSlide (int i) c else c)"
| "dispatch PrevClick c = (if prevBtn c then prevSlide c else c)"
| "dispatch NextClick c = (if nextBtn c then nextSlide c else c)"
| "dispatch (KeyDown k) c =
     (if k = ArrowLeft then prevSlide c
      else if k = ArrowRight then nextSlide c
      else c)"
| "dispatch (TouchStart x) c = c\<lparr>touchStartX := x\<rparr>"
| "dispatch (TouchEnd x) c = handleSwipe (c\<lparr>touchEndX := x\<rparr>)"

definition run :: "event list \<Rightarrow> carousel \<Rightarrow> carousel" where
  "run evs c = foldl (\<lambda>s e. dispatch e s) c evs"

definition in_range :: "carousel \<Rightarrow> bool" where
  "in_range c \<longleftrightarrow> 0 \<le> currentIndex c \<and> currentIndex c \<le> totalSlides c - 1"

text \<open>A five-slide page with both buttons and the dot container, as in the script's header.\<close>

definition dom5 :: carousel_dom where
  "dom5 = \<lparr>has_track = True, n_slides = 5, has_prevBtn = True, has_nextBtn = True,
           has_dotsContainer = True\<rparr>"

definition car5 :: carousel where
  "car5 = \<lparr>currentIndex = 0, totalSlides = 5, transform = None,
           dots = Some [True, False, False, False, False],
           prevBtn = True, nextBtn = True, touchStartX = 0, touchEndX = 0\<rparr>"

section \<open>Animated accordion (FAQ enhancement of the main script)\<close>

text \<open>
  \<open>content.style.height\<close> is only ever set to a pixel length (\<open>"0"\<close> is \<open>Px 0\<close>) or to
  \<open>"auto"\<close>.
\<close>

datatype css_height = Px nat | Auto

text \<open>
  The two closures registered for \<open>transitionend\<close>: the one of the closing branch sets
  \<open>item.open = false\<close>, the one of the opening branch sets the height to \<open>"auto"\<close>.
\<close>

datatype handler = ClosingHandler | OpeningHandler

text \<open>
  One \<open>.accordion-item\<close>: the \<open>open\<close> property of the \<open>details\<close> element, the inline
  height of its content, the \<open>transitionend\<close> listeners currently registered on the
  content in registration order (every click creates a new function object, so none is
  merged with an earlier one), and the number of forced reflows (\<open>content.offsetHeight\<close>
  reads) so far: each one starts a height transition.
\<close>

record accordion_item =
  isOpen :: bool
  style_height :: css_height
  listeners :: "handler list"
  reflows :: nat

text \<open>
  What the script finds for one item: the summary element (if any), the content element
  (if any) with the \<open>scrollHeight\<close> it measures at load, and the \<open>open\<close> attribute.
\<close>

record item_dom =
  summary :: "unit option"
  content :: "nat option"
  open_attr :: bool

definition initItem :: "item_dom \<Rightarrow> js_error + accordion_item option" where
  "initItem d =
     (if summary d = None \<or> content d = None then Inr None
      else case deref (content d) of
        Inl e \<Rightarrow> Inl e
      | Inr scrollHeight \<Rightarrow>
          (case deref (summary d) of
             Inl e \<Rightarrow> Inl e
           | Inr _ \<Rightarrow>
               Inr (Some \<lparr>isOpen = open_attr d,
                          style_height = (if open_attr d then Px scrollHeight else Px 0),
                          listeners = [], reflows = 0\<rparr>)))"

text \<open>
  \<open>accordionItems.forEach\<close>: an exception in one callback would end the loop, so the
  results are collected until the first error.
\<close>

fun initAccordion :: "item_dom list \<Rightarrow> js_error + accordion_item option list" where
  "initAccordion [] = Inr []"
| "initAccordion (d # ds) =
     (case initItem d of
        Inl e \<Rightarrow> Inl e
      | Inr r \<Rightarrow> (case initAccordion ds of Inl e \<Rightarrow> Inl e | Inr rs \<Rightarrow> Inr (r # rs)))"

text \<open>
  The click handler of the summary, statement by statement; \<open>scrollHeight\<close> is what
  \<open>content.scrollHeight\<close> measures during this click. The handler reads \<open>item.open\<close>,
  never whether a transition is under way, and registers a new listener without
  removing an earlier one.
\<close>

definition click :: "nat \<Rightarrow> accordion_item \<Rightarrow> accordion_item" where
  "click scrollHeight it =
     (if isOpen it
      then
        let it1 = it\<lparr>style_height := Px scrollHeight\<rparr>;
            it2 = it1\<lparr>reflows := reflows it1 + 1\<rparr>;
            it3 = it2\<lparr>style_height := Px 0\<rparr>
        in it3\<lparr>listeners := listeners it3 @ [ClosingHandler]\<rparr>
      else
        let it1 = it\<lparr>isOpen := True\<rparr>;
            targetHeight = Px scrollHeight;
            it2 = it1\<lparr>style_height := Px 0\<rparr>;
            it3 = it2\<lparr>reflows := reflows it2 + 1\<rparr>;
            it4 = it3\<lparr>style_height := targetHeight\<rparr>
        in it4\<lparr>listeners := listeners it4 @ [OpeningHandler]\<rparr>)"

text \<open>
  The bodies of the two callbacks. Their own \<open>removeEventListener\<close> call finds the
  listener already removed, since it was registered with \<open>once: true\<close>.
\<close>

fun run_handler :: "accordion_item \<Rightarrow> handler \<Rightarrow> accordion_item" where
  "run_handler it ClosingHandler = it\<lparr>isOpen := False\<rparr>"
| "run_handler it OpeningHandler = it\<lparr>style_height := Auto\<rparr>"

text \<open>
  A \<open>transitionend\<close> event on the content: every registered listener runs once, in
  registration order, and is removed (\<open>once: true\<close>).
\<close>

definition transitionEnd :: "accordion_item \<Rightarrow> accordion_item" where
  "transitionEnd it = foldl run_handler (it\<lparr>listeners := []\<rparr>) (listeners it)"

datatype item_event = Click nat | TransitionEnd

fun item_step :: "accordion_item \<Rightarrow> item_event \<Rightarrow> accordion_item" where
  "item_step it (Click scrollHeight) = click scrollHeight it"
| "item_step it TransitionEnd = transitionEnd it"

definition closedItem :: accordion_item where
  "closedItem = \<lparr>isOpen = False, style_height = Px 0, listeners = [], reflows = 0\<rparr>"

definition openItem :: accordion_item where
  "openItem = \<lparr>isOpen = True, style_height = Px 120, listeners = [], reflows = 0\<rparr>"

text \<open>Three items as the page may hold them: one marked open, one without a summary, one closed.\<close>

definition openDom :: item_dom where
  "openDom = \<lparr>summary = Some (), content = Some 120, open_attr = True\<rparr>"

definition badDom :: item_dom where
  "badDom = \<lparr>summary = None, content = Some 90, open_attr = True\<rparr>"

definition closedDom :: item_dom where
  "closedDom = \<lparr>summary = Some (), content = Some 120, open_attr = False\<rparr>"

section \<open>Properties of the carousel\<close>

lemma currentIndex_updateDots: "currentIndex (updateDots c) = currentIndex c"
  by (simp add: updateDots_def split: option.split)

lemma totalSlides_updateDots: "totalSlides (updateDots c) = totalSlides c"
  by (simp add: updateDots_def split: option.split)

lemma currentIndex_goToSlide:
  "currentIndex (goToSlide i c) =
     (if i < 0 then totalSlides c - 1 else if i \<ge> totalSlides c then 0 else i)"
  by (simp add: goToSlide_def Let_def currentIndex_updateDots)

lemma totalSlides_goToSlide: "totalSlides (goToSlide i c) = totalSlides c"
  by (simp add: goToSlide_def Let_def totalSlides_updateDots)

lemma in_range_goToSlide: "1 \<le> totalSlides c \<Longrightarrow> in_range (goToSlide i c)"
  by (simp add: in_range_def currentIndex_goToSlide totalSlides_goToSlide)

lemma in_range_pos: "in_range c \<Longrightarrow> 1 \<le> totalSlides c"
  by (simp add: in_range_def)

lemma currentIndex_nextSlide:
  assumes "in_range c"
  shows "currentIndex (nextSlide c) = (currentIndex c + 1) mod totalSlides c"
proof (cases "currentIndex c + 1 = totalSlides c")
  case True
  moreover from assms have "0 \<le> currentIndex c"
    by (simp add: in_range_def)
  ultimately show ?thesis
    by (simp add: nextSlide_def currentIndex_goToSlide)
next
  case False
  with assms have "0 \<le> currentIndex c + 1" "currentIndex c + 1 < totalSlides c"
    by (simp_all add: in_range_def)
  then show ?thesis
    by (simp add: nextSlide_def currentIndex_goToSlide)
qed

lemma currentIndex_prevSlide:
  assumes "in_range c"
  shows "currentIndex (prevSlide c) = (currentIndex c - 1) mod totalSlides c"
proof (cases "currentIndex c = 0")
  case True
  moreover from assms have "0 < totalSlides c"
    by (simp add: in_range_def)
  ultimately show ?thesis
    by (simp add: prevSlide_def currentIndex_goToSlide zmod_minus1)
next
  case False
  with assms have "0 \<le> currentIndex c - 1" "currentIndex c - 1 < totalSlides c"
    by (simp_all add: in_range_def)
  then show ?thesis
    by (simp add: prevSlide_def currentIndex_goToSlide)
qed

lemma totalSlides_nextSlide: "totalSlides (nextSlide c) = totalSlides c"
  by (simp add: nextSlide_def totalSlides_goToSlide)

lemma totalSlides_prevSlide: "totalSlides (prevSlide c) = totalSlides c"
  by (simp add: prevSlide_def totalSlides_goToSlide)

lemma in_range_nextSlide: "in_range c \<Longrightarrow> in_range (nextSlide c)"
  by (simp add: nextSlide_def in_range_goToSlide in_range_pos)

lemma in_range_prevSlide: "in_range c \<Longrightarrow> in_range (prevSlide c)"
  by (simp add: prevSlide_def in_range_goToSlide in_range_pos)

lemma in_range_handleSwipe: "in_range c \<Longrightarrow> in_range (handleSwipe c)"
  by (simp add: handleSwipe_def Let_def in_range_nextSlide in_range_prevSlide)

lemma totalSlides_handleSwipe: "totalSlides (handleSwipe c) = totalSlides c"
  by (simp add: handleSwipe_def Let_def totalSlides_nextSlide totalSlides_prevSlide)

lemma in_range_touch:
  "in_range (c\<lparr>touchStartX := x\<rparr>) = in_range c"
  "in_range (c\<lparr>touchEndX := x\<rparr>) = in_range c"
  by (simp_all add: in_range_def)

lemma in_range_dispatch: "in_range c \<Longrightarrow> in_range (dispatch e c)"
  by (cases e)
    (simp_all add: in_range_goToSlide in_range_pos in_range_nextSlide in_range_prevSlide
      in_range_handleSwipe in_range_touch split: option.split)

lemma totalSlides_dispatch: "totalSlides (dispatch e c) = totalSlides c"
  by (cases e)
    (simp_all add: totalSlides_goToSlide totalSlides_nextSlide totalSlides_prevSlide
      totalSlides_handleSwipe split: option.split)

lemma run_snoc: "run (evs @ [e]) c = dispatch e (run evs c)"
  by (simp add: run_def)

lemma in_range_run: "in_range c \<Longrightarrow> in_range (run evs c)"
  by (induction evs rule: rev_induct) (simp_all add: run_def in_range_dispatch)

lemma totalSlides_run: "totalSlides (run evs c) = totalSlides c"
  by (induction evs rule: rev_induct) (simp_all add: run_def totalSlides_dispatch)

lemma initCarousel_Some:
  "initCarousel doc = Inr (Some c) \<Longrightarrow>
     currentIndex c = 0 \<and> 1 \<le> totalSlides c"
  by (cases doc) (auto simp: initCarousel_def split: if_splits)

lemma in_range_car5: "in_range car5"
  by (simp add: in_range_def car5_def)

lemma initCarousel_dom5: "initCarousel (Some dom5) = Inr (Some car5)"
  by (simp add: initCarousel_def dom5_def car5_def createDots_def upt_rec)

text \<open>
  \<open>goToSlide\<close> does not compute a modulus: on five slides, \<open>goToSlide(-2)\<close> sets
  \<open>currentIndex\<close> to 4, while \<open>-2 mod 5\<close> is 3.
\<close>

theorem goToSlide_not_modulus:
  "currentIndex (goToSlide (- 2) car5) \<noteq> (- 2) mod totalSlides car5"
  by (simp add: currentIndex_goToSlide car5_def)

text \<open>
  C1 (as amended). On a carousel with at least one slide, \<open>goToSlide(i)\<close> sets
  \<open>currentIndex\<close> to the last slide for every \<open>i < 0\<close>, to the first slide for every
  \<open>i \<ge> totalSlides\<close>, and to \<open>i\<close> otherwise. For \<open>-1 \<le> i \<le> totalSlides\<close>, the
  arguments that \<open>nextSlide\<close>, \<open>prevSlide\<close> and the dot buttons pass, this is
  \<open>i mod totalSlides\<close> with the mathematical modulus: it wraps, it does not clamp.
\<close>

theorem goToSlide_wraps_to_opposite_end:
  "1 \<le> totalSlides c \<Longrightarrow>
     currentIndex (goToSlide i c) =
       (if i < 0 then totalSlides c - 1 else if i \<ge> totalSlides c then 0 else i)
     \<and> (- 1 \<le> i \<and> i \<le> totalSlides c \<longrightarrow>
          currentIndex (goToSlide i c) = i mod totalSlides c)"
proof (intro conjI impI)
  show "currentIndex (goToSlide i c) =
       (if i < 0 then totalSlides c - 1 else if i \<ge> totalSlides c then 0 else i)"
    by (rule currentIndex_goToSlide)
next
  assume pos: "1 \<le> totalSlides c" and rng: "- 1 \<le> i \<and> i \<le> totalSlides c"
  consider "i = - 1" | "i = totalSlides c" | "0 \<le> i" "i < totalSlides c"
    using rng by linarith
  then show "currentIndex (goToSlide i c) = i mod totalSlides c"
  proof cases
    case 1
    with pos show ?thesis by (simp add: currentIndex_goToSlide zmod_minus1)
  next
    case 2
    with pos show ?thesis by (simp add: currentIndex_goToSlide)
  next
    case 3
    then show ?thesis by (simp add: currentIndex_goToSlide)
  qed
qed

text \<open>
  On five slides: \<open>goToSlide(-1)\<close> gives 4 and \<open>goToSlide(5)\<close> gives 0.
\<close>

theorem goToSlide_wraps_witness:
  "1 \<le> totalSlides car5
   \<and> currentIndex (goToSlide (- 1) car5) = 4
   \<and> currentIndex (goToSlide 5 car5) = 0
   \<and> currentIndex (goToSlide (- 1) car5) = (- 1) mod totalSlides car5"
  using goToSlide_wraps_to_opposite_end [of car5 "- 1"]
    goToSlide_wraps_to_opposite_end [of car5 5]
  by (simp add: car5_def)

text \<open>
  C3. A touch from x-coordinate \<open>s\<close> to x-coordinate \<open>e\<close>: when \<open>\<bar>s - e\<bar>\<close> exceeds
  the threshold of 50, a leftward swipe (\<open>s > e\<close>) is exactly one call of \<open>nextSlide\<close>,
  which advances one slide, and a rightward swipe is exactly one call of \<open>prevSlide\<close>;
  when \<open>\<bar>s - e\<bar>\<close> is below 50, only the two recorded coordinates change and
  \<open>currentIndex\<close> stays.
\<close>

theorem handleSwipe_beyond_threshold:
  "swipeThreshold = 50
   \<and> (\<bar>s - e\<bar> > 50 \<and> s > e \<longrightarrow>
        run [TouchStart s, TouchEnd e] c = nextSlide (c\<lparr>touchStartX := s, touchEndX := e\<rparr>)
        \<and> (in_range c \<longrightarrow>
             currentIndex (run [TouchStart s, TouchEnd e] c)
               = (currentIndex c + 1) mod totalSlides c))
   \<and> (\<bar>s - e\<bar> > 50 \<and> s < e \<longrightarrow>
        run [TouchStart s, TouchEnd e] c = prevSlide (c\<lparr>touchStartX := s, touchEndX := e\<rparr>)
        \<and> (in_range c \<longrightarrow>
             currentIndex (run [TouchStart s, TouchEnd e] c)
               = (currentIndex c - 1) mod totalSlides c))
   \<and> (\<bar>s - e\<bar> < 50 \<longrightarrow>
        run [TouchStart s, TouchEnd e] c = c\<lparr>touchStartX := s, touchEndX := e\<rparr>
        \<and> currentIndex (run [TouchStart s, TouchEnd e] c) = currentIndex c)"
proof -
  let ?c = "c\<lparr>touchStartX := s, touchEndX := e\<rparr>"
  have r: "run [TouchStart s, TouchEnd e] c = handleSwipe ?c"
    by (simp add: run_def)
  have ir: "in_range ?c = in_range c"
    by (simp add: in_range_def)
  have n: "in_range c \<Longrightarrow> currentIndex (nextSlide ?c) = (currentIndex c + 1) mod totalSlides c"
    using currentIndex_nextSlide [of ?c] by (simp add: ir)
  have p: "in_range c \<Longrightarrow> currentIndex (prevSlide ?c) = (currentIndex c - 1) mod totalSlides c"
    using currentIndex_prevSlide [of ?c] by (simp add: ir)
  show ?thesis
    unfolding r by (auto simp: handleSwipe_def swipeThreshold_def Let_def n p)
qed

text \<open>
  On five slides at index 0: 60 px leftward leads to slide 1, 40 px leftward changes
  nothing, 60 px rightward leads to slide 4.
\<close>

theorem handleSwipe_beyond_threshold_witness:
  "\<bar>100 - 40 :: int\<bar> > 50 \<and> (100::int) > 40 \<and> in_range car5 \<and> \<bar>100 - 60 :: int\<bar> < 50
   \<and> currentIndex (run [TouchStart 100, TouchEnd 40] car5) = 1
   \<and> currentIndex (run [TouchStart 100, TouchEnd 60] car5) = 0
   \<and> currentIndex (run [TouchStart 40, TouchEnd 100] car5) = 4"
proof -
  have r: "in_range car5"
    by (rule in_range_car5)
  have h1: "\<bar>100 - 40 :: int\<bar> > 50 \<and> (100::int) > 40"
    and h2: "\<bar>100 - 60 :: int\<bar> < 50"
    and h3: "\<bar>40 - 100 :: int\<bar> > 50 \<and> (40::int) < 100"
    by simp_all
  have a: "currentIndex (run [TouchStart 100, TouchEnd 40] car5)
             = (currentIndex car5 + 1) mod totalSlides car5"
    using handleSwipe_beyond_threshold [of 100 40 car5] h1 r by blast
  have b: "currentIndex (run [TouchStart 100, TouchEnd 60] car5) = currentIndex car5"
    using handleSwipe_beyond_threshold [of 100 60 car5] h2 by blast
  have c: "currentIndex (run [TouchStart 40, TouchEnd 100] car5)
             = (currentIndex car5 - 1) mod totalSlides car5"
    using handleSwipe_beyond_threshold [of 40 100 car5] h3 r by blast
  show ?thesis
    unfolding a b c using r by (simp add: car5_def)
qed

text \<open>
  C10. A swipe of exactly 50 px in either direction is a no-op: the comparison with the
  threshold is strict, neither \<open>nextSlide\<close> nor \<open>prevSlide\<close> runs, and
  \<open>currentIndex\<close>, the track's transform and the dots are unchanged.
\<close>

theorem handleSwipe_at_threshold:
  "\<bar>s - e\<bar> = 50 \<Longrightarrow>
     run [TouchStart s, TouchEnd e] c = c\<lparr>touchStartX := s, touchEndX := e\<rparr>
     \<and> currentIndex (run [TouchStart s, TouchEnd e] c) = currentIndex c
     \<and> transform (run [TouchStart s, TouchEnd e] c) = transform c
     \<and> dots (run [TouchStart s, TouchEnd e] c) = dots c"
  by (simp add: run_def handleSwipe_def swipeThreshold_def Let_def)

text \<open>
  From 100 to 50 nothing is written to the track, which a call of \<open>nextSlide\<close> would
  do; from 100 to 49 the carousel advances.
\<close>

theorem handleSwipe_at_threshold_witness:
  "\<bar>100 - 50 :: int\<bar> = 50
   \<and> currentIndex (run [TouchStart 100, TouchEnd 50] car5) = 0
   \<and> transform (run [TouchStart 100, TouchEnd 50] car5) = None
   \<and> transform (nextSlide car5) = Some 100
   \<and> currentIndex (run [TouchStart 100, TouchEnd 49] car5) = 1"
proof -
  have h: "\<bar>100 - 50 :: int\<bar> = 50" by simp
  have a: "transform (nextSlide car5) = Some 100"
    by (simp add: nextSlide_def goToSlide_def Let_def updateDots_def car5_def)
  have b: "currentIndex (run [TouchStart 100, TouchEnd 49] car5) = 1"
    by (simp add: run_def handleSwipe_def swipeThreshold_def Let_def nextSlide_def
        currentIndex_goToSlide car5_def)
  show ?thesis
    using handleSwipe_at_threshold [OF h, of car5] a b by (simp add: car5_def)
qed

text \<open>
  C4. When the script starts a carousel, \<open>currentIndex\<close> is 0 and there is at least
  one slide; after any sequence of events (dot clicks, button clicks, arrow keys, touches)
  \<open>currentIndex\<close> is in \<open>[0, totalSlides - 1]\<close> and \<open>totalSlides\<close> is unchanged, and
  from there every \<open>goToSlide(i)\<close>, \<open>nextSlide\<close>, \<open>prevSlide\<close>, \<open>handleSwipe\<close>
  and every further event keeps it in that interval.
\<close>

theorem currentIndex_in_range:
  "initCarousel doc = Inr (Some c0) \<Longrightarrow>
     currentIndex c0 = 0 \<and> 1 \<le> totalSlides c0
     \<and> in_range (run evs c0)
     \<and> totalSlides (run evs c0) = totalSlides c0
     \<and> in_range (goToSlide i (run evs c0))
     \<and> in_range (nextSlide (run evs c0))
     \<and> in_range (prevSlide (run evs c0))
     \<and> in_range (handleSwipe (run evs c0))
     \<and> in_range (dispatch e (run evs c0))"
proof -
  assume init: "initCarousel doc = Inr (Some c0)"
  then have z: "currentIndex c0 = 0" and pos: "1 \<le> totalSlides c0"
    using initCarousel_Some by blast+
  then have "in_range c0"
    by (simp add: in_range_def)
  then have r: "in_range (run evs c0)"
    by (rule in_range_run)
  have t: "totalSlides (run evs c0) = totalSlides c0"
    by (rule totalSlides_run)
  from pos t have "in_range (goToSlide i (run evs c0))"
    by (simp add: in_range_goToSlide)
  with z pos r t show ?thesis
    by (simp add: in_range_nextSlide in_range_prevSlide in_range_handleSwipe in_range_dispatch)
qed

text \<open>
  The five-slide page, six events, then \<open>goToSlide(-7)\<close>.
\<close>

theorem currentIndex_in_range_witness:
  "initCarousel (Some dom5) = Inr (Some car5)
   \<and> currentIndex car5 = 0
   \<and> in_range (run [PrevClick, DotClick 3, KeyDown ArrowRight, NextClick,
                     TouchStart 200, TouchEnd 100] car5)
   \<and> in_range (goToSlide (- 7) (run [PrevClick, DotClick 3, KeyDown ArrowRight, NextClick,
                     TouchStart 200, TouchEnd 100] car5))"
  using currentIndex_in_range [OF initCarousel_dom5,
      of "[PrevClick, DotClick 3, KeyDown ArrowRight, NextClick, TouchStart 200, TouchEnd 100]"
         "- 7"]
    initCarousel_dom5
  by simp

lemma currentIndex_funpow_nextSlide:
  "in_range c \<Longrightarrow>
     in_range ((nextSlide ^^ k) c)
     \<and> totalSlides ((nextSlide ^^ k) c) = totalSlides c
     \<and> currentIndex ((nextSlide ^^ k) c) = (currentIndex c + int k) mod totalSlides c"
proof (induction k)
  case 0
  then show ?case by (simp add: in_range_def)
next
  case (Suc k)
  let ?d = "(nextSlide ^^ k) c"
  from Suc have d: "in_range ?d" "totalSlides ?d = totalSlides c"
    "currentIndex ?d = (currentIndex c + int k) mod totalSlides c"
    by simp_all
  have "currentIndex (nextSlide ?d) = (currentIndex ?d + 1) mod totalSlides ?d"
    using d(1) by (rule currentIndex_nextSlide)
  also have "\<dots> = (currentIndex c + int k + 1) mod totalSlides c"
    by (simp add: d(2,3) mod_add_left_eq)
  finally show ?case
    using d by (simp add: in_range_nextSlide totalSlides_nextSlide ac_simps)
qed

lemma shifted_index_differs:
  fixes c n :: int
  assumes "0 \<le> c" "c < n" "0 < k" "k < n"
  shows "(c + k) mod n \<noteq> c"
proof (cases "c + k < n")
  case True
  with assms have "(c + k) mod n = c + k"
    by simp
  with assms show ?thesis by simp
next
  case False
  with assms have "0 \<le> c + k - n" "c + k - n < n"
    by simp_all
  then have "(c + k - n) mod n = c + k - n"
    by (rule mod_pos_pos_trivial)
  moreover have "(c + k - n) mod n = (c + k) mod n"
    by (rule minus_mod_self2)
  ultimately have "(c + k) mod n = c + k - n"
    by (simp only:)
  with assms show ?thesis by simp
qed

text \<open>
  C5. From any \<open>currentIndex\<close> in \<open>[0, totalSlides - 1]\<close>, each call of \<open>nextSlide\<close>
  advances \<open>currentIndex\<close> by one slide modulo \<open>totalSlides\<close>, so that after \<open>k\<close>
  calls it is \<open>(currentIndex + k) mod totalSlides\<close>. Calling \<open>nextSlide\<close> exactly
  \<open>totalSlides\<close> times returns \<open>currentIndex\<close> to its starting value, and no smaller
  positive number of calls does: the navigation is cyclic of period \<open>totalSlides\<close>.
\<close>

theorem nextSlide_cyclic:
  "in_range c \<Longrightarrow>
     currentIndex (nextSlide c) = (currentIndex c + 1) mod totalSlides c
     \<and> (\<forall>k. currentIndex ((nextSlide ^^ k) c) = (currentIndex c + int k) mod totalSlides c)
     \<and> currentIndex ((nextSlide ^^ nat (totalSlides c)) c) = currentIndex c
     \<and> (\<forall>k. 0 < k \<and> k < nat (totalSlides c) \<longrightarrow>
           currentIndex ((nextSlide ^^ k) c) \<noteq> currentIndex c)"
proof (intro conjI allI impI)
  assume r: "in_range c"
  then have b: "0 \<le> currentIndex c" "currentIndex c < totalSlides c"
    by (simp_all add: in_range_def)
  show "currentIndex (nextSlide c) = (currentIndex c + 1) mod totalSlides c"
    using r by (rule currentIndex_nextSlide)
  show "currentIndex ((nextSlide ^^ k) c) = (currentIndex c + int k) mod totalSlides c" for k
    using currentIndex_funpow_nextSlide [OF r, of k] by simp
  show "currentIndex ((nextSlide ^^ nat (totalSlides c)) c) = currentIndex c"
    using b currentIndex_funpow_nextSlide [OF r, of "nat (totalSlides c)"] by simp
  show "currentIndex ((nextSlide ^^ k) c) \<noteq> currentIndex c"
    if "0 < k \<and> k < nat (totalSlides c)" for k
  proof -
    from that have "0 < int k" "int k < totalSlides c"
      by (simp_all add: zless_nat_eq_int_zless)
    with b have "(currentIndex c + int k) mod totalSlides c \<noteq> currentIndex c"
      by (intro shifted_index_differs)
    then show ?thesis
      using currentIndex_funpow_nextSlide [OF r, of k] by simp
  qed
qed

text \<open>
  From slide 3 of five: one step leads to 4, two steps to 0, four steps to 2, five steps
  back to 3.
\<close>

theorem nextSlide_cyclic_witness:
  "in_range (goToSlide 3 car5)
   \<and> currentIndex (goToSlide 3 car5) = 3
   \<and> currentIndex (nextSlide (goToSlide 3 car5)) = 4
   \<and> currentIndex ((nextSlide ^^ 2) (goToSlide 3 car5)) = 0
   \<and> currentIndex ((nextSlide ^^ 4) (goToSlide 3 car5)) = 2
   \<and> currentIndex ((nextSlide ^^ nat (totalSlides (goToSlide 3 car5))) (goToSlide 3 car5)) = 3"
proof -
  let ?c = "goToSlide 3 car5"
  have r: "in_range ?c"
    by (simp add: in_range_goToSlide car5_def)
  have i: "currentIndex ?c = 3" and t: "totalSlides ?c = 5"
    by (simp_all add: currentIndex_goToSlide totalSlides_goToSlide car5_def)
  note th = nextSlide_cyclic [OF r]
  have a: "currentIndex (nextSlide ?c) = (currentIndex ?c + 1) mod totalSlides ?c"
    using th by blast
  have b: "currentIndex ((nextSlide ^^ 2) ?c) = (currentIndex ?c + int 2) mod totalSlides ?c"
    using th by blast
  have c: "currentIndex ((nextSlide ^^ 4) ?c) = (currentIndex ?c + int 4) mod totalSlides ?c"
    using th by blast
  have d: "currentIndex ((nextSlide ^^ nat (totalSlides ?c)) ?c) = currentIndex ?c"
    using th by blast
  show ?thesis
    unfolding a b c d using r by (simp add: i t)
qed

text \<open>
  C9. For \<open>currentIndex\<close> in \<open>[0, totalSlides - 1]\<close>, \<open>nextSlide\<close> followed by
  \<open>prevSlide\<close> restores \<open>currentIndex\<close>, and so does \<open>prevSlide\<close> followed by
  \<open>nextSlide\<close>, also at index 0 and at index \<open>totalSlides - 1\<close>.
\<close>

theorem nextSlide_prevSlide_inverse:
  "in_range c \<Longrightarrow>
     currentIndex (prevSlide (nextSlide c)) = currentIndex c
     \<and> currentIndex (nextSlide (prevSlide c)) = currentIndex c"
  by (auto simp: in_range_def nextSlide_def prevSlide_def currentIndex_goToSlide
      totalSlides_goToSlide)

text \<open>
  At index 0 of five slides: forward to 1 and back to 0, backward to 4 and forward to 0.
\<close>

theorem nextSlide_prevSlide_inverse_witness:
  "in_range car5
   \<and> currentIndex (nextSlide car5) = 1
   \<and> currentIndex (prevSlide (nextSlide car5)) = 0
   \<and> currentIndex (prevSlide car5) = 4
   \<and> currentIndex (nextSlide (prevSlide car5)) = 0"
  using nextSlide_prevSlide_inverse [OF in_range_car5] in_range_car5
  by (simp add: nextSlide_def prevSlide_def currentIndex_goToSlide car5_def)

section \<open>Properties of the accordion\<close>

lemma isOpen_click: "isOpen (click h it)"
  by (simp add: click_def Let_def)

lemma listeners_click:
  "listeners (click h it) =
     listeners it @ [if isOpen it then ClosingHandler else OpeningHandler]"
  by (simp add: click_def Let_def)

lemma listeners_foldl_run_handler: "listeners (foldl run_handler it hs) = listeners it"
proof (induction hs arbitrary: it)
  case Nil
  show ?case by simp
next
  case (Cons h hs)
  then show ?case by (cases h) simp_all
qed

lemma listeners_transitionEnd: "listeners (transitionEnd it) = []"
  by (simp add: transitionEnd_def listeners_foldl_run_handler)

lemma transitionEnd_idle: "listeners it = [] \<Longrightarrow> transitionEnd it = it"
  by (simp add: transitionEnd_def)

lemma isOpen_transitionEnd_closing:
  "listeners it = hs @ [ClosingHandler] \<Longrightarrow> \<not> isOpen (transitionEnd it)"
  by (simp add: transitionEnd_def)

lemma isOpen_steps:
  "isOpen it \<Longrightarrow> TransitionEnd \<notin> set evs \<Longrightarrow> isOpen (foldl item_step it evs)"
proof (induction evs arbitrary: it)
  case Nil
  then show ?case by simp
next
  case (Cons e evs)
  then obtain h where "e = Click h"
    by (cases e) auto
  with Cons show ?case
    by (simp add: isOpen_click)
qed

lemma initItem_no_error: "initItem d \<noteq> Inl e"
  by (cases "summary d"; cases "content d") (simp_all add: initItem_def)

lemma initItem_malformed:
  "summary d = None \<or> content d = None \<Longrightarrow> initItem d = Inr None"
  by (simp add: initItem_def)

lemma initAccordion_total: "\<exists>rs. initAccordion ds = Inr rs \<and> length rs = length ds"
proof (induction ds)
  case Nil
  show ?case by simp
next
  case (Cons d ds)
  obtain r where "initItem d = Inr r"
    using initItem_no_error [of d] by (cases "initItem d") auto
  with Cons show ?case by auto
qed

lemma initAccordion_append:
  "initAccordion xs = Inr rs1 \<Longrightarrow> initAccordion ys = Inr rs2 \<Longrightarrow>
     initAccordion (xs @ ys) = Inr (rs1 @ rs2)"
proof (induction xs arbitrary: rs1)
  case Nil
  then show ?case by simp
next
  case (Cons d xs)
  then show ?case
    by (auto split: sum.splits)
qed

text \<open>
  Two clicks on a closed item and then the completion event: both callbacks are still
  registered, the one of the first click runs and sets the height to \<open>"auto"\<close>, so the
  height written by the second click (0) does not survive.
\<close>

theorem double_click_height_not_zero:
  "style_height (foldl item_step closedItem [Click 120, Click 120, TransitionEnd]) \<noteq> Px 0"
  by (simp add: closedItem_def click_def Let_def transitionEnd_def)

lemma foldl_run_handler_opening_closing:
  "foldl run_handler s (hs @ [OpeningHandler, ClosingHandler])
     = run_handler (run_handler (foldl run_handler s hs) OpeningHandler) ClosingHandler"
  by simp

text \<open>
  C2 (as amended). For a closed item, two clicks before any completion event amount to
  two logical toggles: the first click marks the item open, the second takes the closing
  branch (it reads the current \<open>open\<close> flag) and sets the height to 0, which holds until
  the completion event; the callbacks of both clicks stay registered, in that order. At the
  completion event both run, once each and in registration order: the opening callback of
  the first click sets the height to \<open>"auto"\<close>, then the closing callback of the second
  click marks the item closed. The item ends closed (\<open>isOpen = false\<close>), whatever the two
  measured heights, with height \<open>"auto"\<close> and no callback registered.
\<close>

theorem double_click_nets_closed:
  "\<not> isOpen it \<Longrightarrow>
     isOpen (click h1 it)
     \<and> isOpen (click h2 (click h1 it))
     \<and> style_height (click h2 (click h1 it)) = Px 0
     \<and> listeners (click h2 (click h1 it)) = listeners it @ [OpeningHandler, ClosingHandler]
     \<and> foldl item_step it [Click h1, Click h2, TransitionEnd]
         = run_handler
             (run_handler
                (foldl run_handler ((click h2 (click h1 it))\<lparr>listeners := []\<rparr>) (listeners it))
                OpeningHandler)
             ClosingHandler
     \<and> style_height (foldl item_step it [Click h1, Click h2, TransitionEnd]) = Auto
     \<and> \<not> isOpen (foldl item_step it [Click h1, Click h2, TransitionEnd])
     \<and> listeners (foldl item_step it [Click h1, Click h2, TransitionEnd]) = []"
proof -
  assume closed: "\<not> isOpen it"
  let ?it2 = "click h2 (click h1 it)"
  have l: "listeners ?it2 = listeners it @ [OpeningHandler, ClosingHandler]"
    using closed by (simp add: listeners_click isOpen_click)
  have e: "transitionEnd ?it2
         = run_handler
             (run_handler (foldl run_handler (?it2\<lparr>listeners := []\<rparr>) (listeners it))
                OpeningHandler)
             ClosingHandler"
    unfolding transitionEnd_def l by (rule foldl_run_handler_opening_closing)
  have a: "style_height (transitionEnd ?it2) = Auto"
    unfolding e by simp
  have c: "\<not> isOpen (transitionEnd ?it2)"
    unfolding e by simp
  have h: "style_height ?it2 = Px 0"
    by (simp add: click_def Let_def)
  have s: "foldl item_step it [Click h1, Click h2, TransitionEnd] = transitionEnd ?it2"
    by simp
  show ?thesis
    unfolding s
    by (intro conjI isOpen_click h l e a c listeners_transitionEnd)
qed

text \<open>
  A closed item, clicked with measured heights 120 and 80, then the completion event.
\<close>

theorem double_click_nets_closed_witness:
  "\<not> isOpen closedItem
   \<and> isOpen (click 80 (click 120 closedItem))
   \<and> style_height (click 80 (click 120 closedItem)) = Px 0
   \<and> listeners (click 80 (click 120 closedItem)) = [OpeningHandler, ClosingHandler]
   \<and> foldl item_step closedItem [Click 120, Click 80, TransitionEnd]
       = \<lparr>isOpen = False, style_height = Auto, listeners = [], reflows = 2\<rparr>"
proof -
  have c: "\<not> isOpen closedItem"
    by (simp add: closedItem_def)
  note th = double_click_nets_closed [OF c, of 120 80]
  have a: "isOpen (click 80 (click 120 closedItem))
           \<and> style_height (click 80 (click 120 closedItem)) = Px 0"
    using th by blast
  have l: "listeners (click 80 (click 120 closedItem))
             = listeners closedItem @ [OpeningHandler, ClosingHandler]"
    using th by blast
  have e: "foldl item_step closedItem [Click 120, Click 80, TransitionEnd]
         = run_handler
             (run_handler
                (foldl run_handler ((click 80 (click 120 closedItem))\<lparr>listeners := []\<rparr>)
                   (listeners closedItem))
                OpeningHandler)
             ClosingHandler"
    using th by blast
  have f: "run_handler
             (run_handler
                (foldl run_handler ((click 80 (click 120 closedItem))\<lparr>listeners := []\<rparr>)
                   (listeners closedItem))
                OpeningHandler)
             ClosingHandler
           = \<lparr>isOpen = False, style_height = Auto, listeners = [], reflows = 2\<rparr>"
    by (simp add: closedItem_def click_def Let_def)
  show ?thesis
    unfolding e f using c a l by (simp add: closedItem_def)
qed

text \<open>
  C6. A click on an open item starts the collapse (height 0) and leaves the item marked
  open; it stays marked open through any further clicks, as long as no completion event is
  delivered; the completion event is what marks it closed.
\<close>

theorem closing_marks_closed_only_on_completion:
  "isOpen it \<Longrightarrow> TransitionEnd \<notin> set evs \<Longrightarrow>
     isOpen (click h it)
     \<and> style_height (click h it) = Px 0
     \<and> isOpen (foldl item_step (click h it) evs)
     \<and> \<not> isOpen (transitionEnd (click h it))"
proof -
  assume op: "isOpen it" and evs: "TransitionEnd \<notin> set evs"
  have "listeners (click h it) = listeners it @ [ClosingHandler]"
    using op by (simp add: listeners_click)
  then have "\<not> isOpen (transitionEnd (click h it))"
    by (rule isOpen_transitionEnd_closing)
  moreover have "isOpen (foldl item_step (click h it) evs)"
    using isOpen_click evs by (rule isOpen_steps)
  moreover have "style_height (click h it) = Px 0"
    using op by (simp add: click_def Let_def)
  ultimately show ?thesis
    by (simp add: isOpen_click)
qed

text \<open>
  An open item, clicked three times without a completion event.
\<close>

theorem closing_marks_closed_only_on_completion_witness:
  "isOpen openItem \<and> TransitionEnd \<notin> set [Click 120, Click 120]
   \<and> isOpen (click 120 openItem)
   \<and> isOpen (foldl item_step (click 120 openItem) [Click 120, Click 120])
   \<and> \<not> isOpen (transitionEnd (click 120 openItem))"
proof -
  have a: "isOpen openItem"
    by (simp add: openItem_def)
  have b: "TransitionEnd \<notin> set [Click 120, Click 120]"
    by simp
  show ?thesis
    using a b closing_marks_closed_only_on_completion [OF a b, of 120] by simp
qed

text \<open>
  C7. An item with a summary and a content of natural height \<open>h\<close> starts with
  \<open>isOpen\<close> equal to its \<open>open\<close> attribute and with height \<open>h\<close> if marked open,
  0 if not; no transition is started (no forced reflow), no completion callback is
  registered, and a completion event would change nothing.
\<close>

theorem initItem_respects_open_attribute:
  "summary d \<noteq> None \<Longrightarrow> content d = Some h \<Longrightarrow>
     \<exists>it. initItem d = Inr (Some it)
       \<and> isOpen it = open_attr d
       \<and> style_height it = (if open_attr d then Px h else Px 0)
       \<and> listeners it = [] \<and> reflows it = 0
       \<and> transitionEnd it = it"
  by (cases "summary d") (simp_all add: initItem_def transitionEnd_def)

text \<open>
  An item of natural height 120, marked open and not.
\<close>

theorem initItem_respects_open_attribute_witness:
  "summary \<lparr>summary = Some (), content = Some 120, open_attr = True\<rparr> \<noteq> None
   \<and> initItem \<lparr>summary = Some (), content = Some 120, open_attr = True\<rparr>
       = Inr (Some \<lparr>isOpen = True, style_height = Px 120, listeners = [], reflows = 0\<rparr>)
   \<and> initItem \<lparr>summary = Some (), content = Some 120, open_attr = False\<rparr>
       = Inr (Some \<lparr>isOpen = False, style_height = Px 0, listeners = [], reflows = 0\<rparr>)"
  using initItem_respects_open_attribute
      [of "\<lparr>summary = Some (), content = Some 120, open_attr = True\<rparr>" 120]
    initItem_respects_open_attribute
      [of "\<lparr>summary = Some (), content = Some 120, open_attr = False\<rparr>" 120]
  by auto

text \<open>
  C8. Initialisation never throws, for any item, any list of items and any carousel
  markup. An item without summary or without content is skipped (no state, no listener),
  and the items before and after it are initialised exactly as they are without it. A page
  without carousel, without track or with zero slides leaves the carousel script inert: it
  returns before registering any listener.
\<close>

theorem missing_elements_skipped_silently:
  "(\<forall>e. initItem d \<noteq> Inl e) \<and> (\<forall>e. initAccordion ds \<noteq> Inl e)
   \<and> (\<forall>e. initCarousel doc \<noteq> Inl e)
   \<and> (summary d = None \<or> content d = None \<longrightarrow>
        initItem d = Inr None
        \<and> (\<exists>rs1 rs2. initAccordion xs = Inr rs1 \<and> initAccordion ys = Inr rs2
              \<and> initAccordion (xs @ d # ys) = Inr (rs1 @ None # rs2)))
   \<and> (doc = None \<or> (\<exists>cd. doc = Some cd \<and> (\<not> has_track cd \<or> n_slides cd = 0)) \<longrightarrow>
        initCarousel doc = Inr None \<and> attached None = [])"
proof (intro conjI allI impI)
  fix e
  show "initItem d \<noteq> Inl e"
    by (rule initItem_no_error)
  show "initAccordion ds \<noteq> Inl e"
    using initAccordion_total [of ds] by auto
  show "initCarousel doc \<noteq> Inl e"
    by (cases doc) (simp_all add: initCarousel_def)
next
  assume "summary d = None \<or> content d = None"
  then show "initItem d = Inr None"
    by (rule initItem_malformed)
next
  assume bad: "summary d = None \<or> content d = None"
  obtain rs1 where 1: "initAccordion xs = Inr rs1"
    using initAccordion_total [of xs] by blast
  obtain rs2 where 2: "initAccordion ys = Inr rs2"
    using initAccordion_total [of ys] by blast
  have "initAccordion (d # ys) = Inr (None # rs2)"
    using bad 2 by (simp add: initItem_malformed)
  with 1 have "initAccordion (xs @ d # ys) = Inr (rs1 @ None # rs2)"
    by (rule initAccordion_append)
  with 1 2 show "\<exists>rs1 rs2. initAccordion xs = Inr rs1 \<and> initAccordion ys = Inr rs2
              \<and> initAccordion (xs @ d # ys) = Inr (rs1 @ None # rs2)"
    by blast
next
  assume "doc = None \<or> (\<exists>cd. doc = Some cd \<and> (\<not> has_track cd \<or> n_slides cd = 0))"
  then show "initCarousel doc = Inr None"
    by (auto simp: initCarousel_def)
next
  show "attached None = []"
    by (simp add: attached_def)
qed

text \<open>
  The malformed item between two well-formed ones, and three pages on which the carousel
  script stays inert; on the complete page it registers ten listeners.
\<close>

theorem missing_elements_skipped_silently_witness:
  "(summary badDom = None \<or> content badDom = None)
   \<and> initItem badDom = Inr None
   \<and> initAccordion [openDom, badDom, closedDom] = Inr [Some openItem, None, Some closedItem]
   \<and> initAccordion [openDom, closedDom] = Inr [Some openItem, Some closedItem]
   \<and> initCarousel None = Inr None
   \<and> initCarousel (Some (dom5\<lparr>has_track := False\<rparr>)) = Inr None
   \<and> initCarousel (Some (dom5\<lparr>n_slides := 0\<rparr>)) = Inr None
   \<and> length (attached (Some car5)) = 10"
proof -
  have bad: "summary badDom = None \<or> content badDom = None"
    by (simp add: badDom_def)
  have a: "initItem badDom = Inr None"
    using missing_elements_skipped_silently [where d = badDom] bad by blast
  have b: "initAccordion [openDom] = Inr [Some openItem]"
    by (simp add: initItem_def openDom_def openItem_def)
  have c: "initAccordion [closedDom] = Inr [Some closedItem]"
    by (simp add: initItem_def closedDom_def closedItem_def)
  have d: "initAccordion ([openDom] @ badDom # [closedDom])
             = Inr ([Some openItem] @ None # [Some closedItem])"
    using missing_elements_skipped_silently
      [where d = badDom and xs = "[openDom]" and ys = "[closedDom]"] bad b c
    by auto
  have e: "initAccordion [openDom, closedDom] = Inr [Some openItem, Some closedItem]"
    by (simp add: initItem_def openDom_def openItem_def closedDom_def closedItem_def)
  have f: "initCarousel None = Inr None"
    using missing_elements_skipped_silently [where doc = None] by blast
  have g: "initCarousel (Some (dom5\<lparr>has_track := False\<rparr>)) = Inr None"
    using missing_elements_skipped_silently [where doc = "Some (dom5\<lparr>has_track := False\<rparr>)"]
    by simp
  have h: "initCarousel (Some (dom5\<lparr>n_slides := 0\<rparr>)) = Inr None"
    using missing_elements_skipped_silently [where doc = "Some (dom5\<lparr>n_slides := 0\<rparr>)"]
    by simp
  have i: "length (attached (Some car5)) = 10"
    by (simp add: attached_def car5_def)
  from bad a d e f g h i show ?thesis
    by simp
qed

end
